theory Spec2Isabelle
  imports Main
begin

section \<open>Data model\<close>

text \<open>
  A Python \<open>str\<close> is modelled as a \<open>string\<close>; a \<open>char\<close> is read as the code point of
  the same number (code points below 256).

  Every exception of the program is implicit: nothing is raised or caught in \<open>scrap.py\<close>.
  The three ways a call can fail are the error values of the model, under the names of
  the specification:
  \<^item> \<open>FetchError\<close>: \<open>requests.get\<close> raises (a \<open>RequestException\<close>: no connection, or a
    URL that is not one, such as \<open>None\<close>);
  \<^item> \<open>LookupError\<close>: an element that \<open>find\<close> looked for is absent, \<open>find\<close> returned
    \<open>None\<close>, and the attribute access on that \<open>None\<close> raises (an \<open>AttributeError\<close>);
  \<^item> \<open>SerializationError\<close>: \<open>open\<close> of the output file raises (an \<open>OSError\<close>).
\<close>

datatype error = FetchError | LookupError | SerializationError

text \<open>
  A \<open>p\<close> tag of the parsed page, as far as the program reads it: \<open>str(parrafo)\<close> is its
  markup and \<open>parrafo.text\<close> its rendered plain text.
\<close>

record p_tag =
  p_markup :: string
  p_text :: string

text \<open>
  A parsed page, as far as the program queries it:
  \<^item> \<open>list_rows\<close>: the result of \<open>find_all('li', class_='cnt-list-row')\<close>, each row given by
    its attributes;
  \<^item> \<open>head_title\<close>: \<open>find("div", class_="cnt-head_title")\<close>, \<open>None\<close> when there is no
    such \<open>div\<close>; inside, \<open>find("h1")\<close>, \<open>None\<close> when there is no \<open>h1\<close>, else its text;
  \<^item> \<open>cnt_letra\<close>: \<open>find('div', class_='cnt-letra')\<close>, \<open>None\<close> when there is no such
    \<open>div\<close>, else the result of \<open>find_all('p')\<close> on it.
\<close>

record document =
  list_rows :: "(string \<times> string) list list"
  head_title :: "string option option"
  cnt_letra :: "p_tag list option"

text \<open>The dictionary that \<open>get_song_info\<close> returns; its keys in insertion order.\<close>

record song_info =
  name :: string
  lyrics :: string
  url :: string

section \<open>String operations of Python\<close>

text \<open>
  \<open>s.replace(old, new)\<close>: every occurrence of \<open>old\<close>, found from left to right without
  overlap, becomes \<open>new\<close>. With an empty \<open>old\<close>, \<open>new\<close> is put before every character
  and at the end.
\<close>

function replace :: "string \<Rightarrow> string \<Rightarrow> string \<Rightarrow> string" where
  "replace old new [] = (if old = [] then new else [])"
| "replace old new (c # cs) =
     (if old = [] then new @ c # replace old new cs
      else if take (length old) (c # cs) = old
      then new @ replace old new (drop (length old) (c # cs))
      else c # replace old new cs)"
  by pat_completeness auto
termination
  by (relation "measure (\<lambda>(old, new, s). length s)") (auto simp: neq_Nil_conv)

text \<open>\<open>s[:-2]\<close>: all but the last two characters; empty when there are fewer than two.\<close>

definition slice_to_minus2 :: "string \<Rightarrow> string" where
  "slice_to_minus2 s = take (length s - 2) s"

text \<open>
  The character classes of \<open>re\<close> on a \<open>str\<close> pattern: \<open>[A-Z]\<close> is the 26 ASCII capitals,
  \<open>\w\<close> is an alphanumeric character or the underscore.
\<close>

definition is_upper_AZ :: "char \<Rightarrow> bool" where
  "is_upper_AZ c = (let n = (of_char c :: nat) in 65 \<le> n \<and> n \<le> 90)"

definition is_word :: "char \<Rightarrow> bool" where
  "is_word c =
     (let n = (of_char c :: nat) in
        (48 \<le> n \<and> n \<le> 57) \<or> (65 \<le> n \<and> n \<le> 90) \<or> n = 95 \<or> (97 \<le> n \<and> n \<le> 122) \<or>
        n = 170 \<or> n = 178 \<or> n = 179 \<or> n = 181 \<or> n = 185 \<or> n = 186 \<or>
        (188 \<le> n \<and> n \<le> 190) \<or> (192 \<le> n \<and> n \<le> 214) \<or> (216 \<le> n \<and> n \<le> 246) \<or>
        248 \<le> n)"

text \<open>
  \<open>\B\<close> holds between two neighbouring positions when they are both word characters or
  both not; the start and the end of the string count as not a word character.
\<close>

definition not_word_boundary :: "char option \<Rightarrow> char option \<Rightarrow> bool" where
  "not_word_boundary prev nxt =
     ((case prev of None \<Rightarrow> False | Some c \<Rightarrow> is_word c) =
      (case nxt of None \<Rightarrow> False | Some c \<Rightarrow> is_word c))"

text \<open>
  \<open>re.sub(r"\B([A-Z])", r" \1", s)\<close>, scanning \<open>s\<close> from the left with the character before
  the position at hand: a match is one capital at a position where \<open>\B\<close> holds, and it is
  replaced by a space and the capital.
\<close>

fun sub_camel :: "char option \<Rightarrow> string \<Rightarrow> string" where
  "sub_camel prev [] = []"
| "sub_camel prev (c # cs) =
     (if not_word_boundary prev (Some c) \<and> is_upper_AZ c
      then CHR '' '' # c # sub_camel (Some c) cs
      else c # sub_camel (Some c) cs)"

text \<open>
  \<open>re.sub(' +', ' ', s)\<close>: a match is a longest run of spaces, replaced by one space.
\<close>

function sub_spaces :: "string \<Rightarrow> string" where
  "sub_spaces [] = []"
| "sub_spaces (c # cs) =
     (if c = CHR '' '' then CHR '' '' # sub_spaces (dropWhile (\<lambda>x. x = CHR '' '') cs)
      else c # sub_spaces cs)"
  by pat_completeness auto
termination
  by (relation "measure length") (auto simp: length_dropWhile_le less_Suc_eq_le)

section \<open>The text normalizer\<close>

text \<open>The body of the loop over \<open>parrafos\<close> when \<open>breaklines\<close> is true.\<close>

definition breaklines_text :: "p_tag \<Rightarrow> string" where
  "breaklines_text parrafo =
     (let text0 = p_markup parrafo;
          text1 = replace ''<br>'' ''\<newline>'' text0;
          text2 = replace ''<br/>'' ''\<newline>'' text1;
          text3 = replace ''</br>'' '''' text2;
          text4 = replace ''<p>'' '''' text3;
          text5 = replace ''</p>'' ''\<newline>'' text4
      in text5)"

fun breaklines_loop :: "string \<Rightarrow> p_tag list \<Rightarrow> string" where
  "breaklines_loop lyric [] = lyric"
| "breaklines_loop lyric (parrafo # parrafos) =
     breaklines_loop (lyric @ breaklines_text parrafo @ ''\<newline>'') parrafos"

text \<open>The loop of \<open>get_lyrics_from_div\<close> when \<open>breaklines\<close> is false.\<close>

fun div_flat_loop :: "string \<Rightarrow> p_tag list \<Rightarrow> string" where
  "div_flat_loop lyric [] = lyric"
| "div_flat_loop lyric (parrafo # parrafos) =
     div_flat_loop (sub_spaces (lyric @ sub_camel None (p_text parrafo) @ '' '')) parrafos"

text \<open>
  The loop of \<open>get_lyrics_from_url\<close> when \<open>breaklines\<close> is false: one more space is added
  after the runs of spaces are collapsed.
\<close>

fun url_flat_loop :: "string \<Rightarrow> p_tag list \<Rightarrow> string" where
  "url_flat_loop lyric [] = lyric"
| "url_flat_loop lyric (parrafo # parrafos) =
     url_flat_loop (sub_spaces (lyric @ sub_camel None (p_text parrafo) @ '' '') @ '' '') parrafos"

text \<open>
  \<open>get_lyrics_from_div(div, breaklines)\<close>, its argument named \<open>lyric_div\<close> as at the call.
  When it is \<open>None\<close>, \<open>div.find_all\<close> raises.
\<close>

definition get_lyrics_from_div :: "p_tag list option \<Rightarrow> bool \<Rightarrow> error + string" where
  "get_lyrics_from_div lyric_div breaklines =
     (case lyric_div of
        None \<Rightarrow> Inl LookupError
      | Some parrafos \<Rightarrow>
          if breaklines then Inr (slice_to_minus2 (breaklines_loop [] parrafos))
          else Inr (div_flat_loop [] parrafos))"

section \<open>Fetching pages\<close>

text \<open>
  The web is a parameter: the parsed page that \<open>bs(requests.get(u).content, 'html.parser')\<close>
  gives for the address \<open>u\<close>, or nothing when \<open>requests.get\<close> raises. The same address
  gives the same page throughout one run.
\<close>

type_synonym web = "string \<Rightarrow> document option"

definition requests_get :: "web \<Rightarrow> string \<Rightarrow> error + document" where
  "requests_get w u = (case w u of None \<Rightarrow> Inl FetchError | Some page \<Rightarrow> Inr page)"

section \<open>Catalog lister\<close>

text \<open>\<open>song.get(key)\<close> on a tag: the value of the attribute, \<open>None\<close> when it has none.\<close>

definition tag_get :: "(string \<times> string) list \<Rightarrow> string \<Rightarrow> string option" where
  "tag_get song key = map_of song key"

definition get_songs_list :: "web \<Rightarrow> string \<Rightarrow> error + string option list" where
  "get_songs_list w artist_url =
     (case requests_get w (artist_url @ ''mais_acessadas.html'') of
        Inl e \<Rightarrow> Inl e
      | Inr soup \<Rightarrow> Inr (map (\<lambda>song. tag_get song ''data-shareurl'') (list_rows soup)))"

section \<open>Song extractor\<close>

definition get_lyrics_from_url :: "web \<Rightarrow> string \<Rightarrow> bool \<Rightarrow> error + string" where
  "get_lyrics_from_url w song_url breaklines =
     (case requests_get w song_url of
        Inl e \<Rightarrow> Inl e
      | Inr song \<Rightarrow>
          (case cnt_letra song of
             None \<Rightarrow> Inl LookupError
           | Some parrafos \<Rightarrow>
               if breaklines then Inr (slice_to_minus2 (breaklines_loop [] parrafos))
               else Inr (url_flat_loop [] parrafos)))"

text \<open>
  \<open>get_song_info(song_url)\<close>. Its argument is an entry of the list of \<open>get_songs_list\<close>,
  which may be \<open>None\<close>; \<open>requests.get(None)\<close> raises. The title is read first:
  \<open>find(...)\<close> for the heading container, \<open>.find("h1")\<close> on it, \<open>.text\<close> on that; each
  raises on \<open>None\<close>.
\<close>

definition get_song_info :: "web \<Rightarrow> string option \<Rightarrow> error + song_info" where
  "get_song_info w song_url =
     (case song_url of
        None \<Rightarrow> Inl FetchError
      | Some u \<Rightarrow>
          (case requests_get w u of
             Inl e \<Rightarrow> Inl e
           | Inr song \<Rightarrow>
               (case head_title song of
                  None \<Rightarrow> Inl LookupError
                | Some None \<Rightarrow> Inl LookupError
                | Some (Some song_name) \<Rightarrow>
                    (case get_lyrics_from_div (cnt_letra song) False of
                       Inl e \<Rightarrow> Inl e
                     | Inr lyric \<Rightarrow> Inr \<lparr>name = song_name, lyrics = lyric, url = u\<rparr>))))"

section \<open>Fan-out aggregator\<close>

text \<open>
  \<open>[fn(x) for x in xs]\<close>: the calls are made from left to right, and the first one that
  raises ends the comprehension.
\<close>

fun list_comprehension :: "('a \<Rightarrow> error + 'b) \<Rightarrow> 'a list \<Rightarrow> error + 'b list" where
  "list_comprehension fn [] = Inr []"
| "list_comprehension fn (x # xs) =
     (case fn x of
        Inl e \<Rightarrow> Inl e
      | Inr y \<Rightarrow>
          (case list_comprehension fn xs of
             Inl e \<Rightarrow> Inl e
           | Inr ys \<Rightarrow> Inr (y # ys)))"

definition get_artist_songs :: "web \<Rightarrow> string \<Rightarrow> error + song_info list" where
  "get_artist_songs w artist_url =
     (case get_songs_list w artist_url of
        Inl e \<Rightarrow> Inl e
      | Inr urls \<Rightarrow> list_comprehension (get_song_info w) urls)"

text \<open>
  \<open>ThreadPoolExecutor.map(fn, xs)\<close> submits one task per element, the future of the task
  at position \<open>i\<close> kept at position \<open>i\<close>. The tasks that finish do so in an order of the
  scheduler's choosing, here the list \<open>completion\<close> of positions; a task that finishes
  stores what \<open>fn\<close> returned or raised in its future. A position that is not in the list
  is a task that does not finish: once reading a result has raised, \<open>map\<close> cancels the
  tasks that have not started, and they never run.
\<close>

definition run_tasks :: "('a \<Rightarrow> error + 'b) \<Rightarrow> 'a list \<Rightarrow> nat list \<Rightarrow> (nat \<rightharpoonup> error + 'b)" where
  "run_tasks fn xs completion =
     fold (\<lambda>i futures. if i < length xs then futures(i \<mapsto> fn (xs ! i)) else futures)
       completion Map.empty"

text \<open>
  \<open>[result for result in results]\<close>: the futures are read by position, from the first;
  reading one waits for its task and gives its value or raises its exception, and the
  first exception ends the reading: the futures after it are not read. Reading a future
  whose task never finishes does not return, which is \<open>None\<close> here.
\<close>

fun read_results :: "(nat \<rightharpoonup> error + 'b) \<Rightarrow> nat list \<Rightarrow> (error + 'b list) option" where
  "read_results futures [] = Some (Inr [])"
| "read_results futures (i # js) =
     (case futures i of
        None \<Rightarrow> None
      | Some (Inl e) \<Rightarrow> Some (Inl e)
      | Some (Inr y) \<Rightarrow>
          (case read_results futures js of
             None \<Rightarrow> None
           | Some (Inl e) \<Rightarrow> Some (Inl e)
           | Some (Inr ys) \<Rightarrow> Some (Inr (y # ys))))"

text \<open>
  The \<open>with\<close> block of the executor. It is left with the list of the results when every
  future has been read, and with the first exception that the reading met otherwise: on
  leaving the block the executor waits only for the tasks that are running, which finish,
  and not for the cancelled ones.
\<close>

definition executor_map ::
  "('a \<Rightarrow> error + 'b) \<Rightarrow> 'a list \<Rightarrow> nat list \<Rightarrow> (error + 'b list) option" where
  "executor_map fn xs completion =
     read_results (run_tasks fn xs completion) [0..<length xs]"

section \<open>Catalog exporter\<close>

text \<open>
  The value given to \<open>json.dump\<close>: a list of dictionaries from strings to strings.
\<close>

datatype json = JString string | JObject "(string \<times> json) list" | JArray "json list"

definition song_json :: "song_info \<Rightarrow> json" where
  "song_json s =
     JObject [(''name'', JString (name s)), (''lyrics'', JString (lyrics s)),
              (''url'', JString (url s))]"

text \<open>
  What a file written by the program can hold: nothing, after \<open>open(path, "w")\<close> has
  truncated it; the whole text of \<open>json.dump(v, fp, indent=n)\<close>; or, when a write of the
  dump has raised, some part of that text from its start.
\<close>

datatype file_content = Empty_file | Dump json nat | Partial_dump json nat

text \<open>
  The files: \<open>contents\<close> gives what the file at a path holds, if there is one; \<open>openable\<close>
  says whether \<open>open(path, "w")\<close> succeeds, and \<open>dump_succeeds\<close> whether every write of
  the dump of a value to the file opened at the path does.
\<close>

record disk =
  contents :: "string \<rightharpoonup> file_content"
  openable :: "string \<Rightarrow> bool"
  dump_succeeds :: "string \<Rightarrow> json \<Rightarrow> bool"

text \<open>\<open>open(path, "w")\<close>: the file is created or truncated, or the call raises.\<close>

definition open_w :: "disk \<Rightarrow> string \<Rightarrow> (error + unit) \<times> disk" where
  "open_w d path =
     (if openable d path then (Inr (), d\<lparr>contents := (contents d)(path \<mapsto> Empty_file)\<rparr>)
      else (Inl SerializationError, d))"

text \<open>\<open>json.dump(v, fp, indent=n)\<close> on the file opened at \<open>path\<close>.\<close>

definition json_dump :: "disk \<Rightarrow> string \<Rightarrow> json \<Rightarrow> nat \<Rightarrow> (error + unit) \<times> disk" where
  "json_dump d path v indent =
     (if dump_succeeds d path v
      then (Inr (), d\<lparr>contents := (contents d)(path \<mapsto> Dump v indent)\<rparr>)
      else (Inl SerializationError, d\<lparr>contents := (contents d)(path \<mapsto> Partial_dump v indent)\<rparr>))"

text \<open>\<open>with open(path, "w") as fp: json.dump(v, fp, indent=n)\<close>.\<close>

definition write_json :: "disk \<Rightarrow> string \<Rightarrow> json \<Rightarrow> nat \<Rightarrow> (error + unit) \<times> disk" where
  "write_json d path v indent =
     (case open_w d path of
        (Inl e, d') \<Rightarrow> (Inl e, d')
      | (Inr _, d') \<Rightarrow> json_dump d' path v indent)"

definition scrap_songs_concurrently ::
  "web \<Rightarrow> disk \<Rightarrow> string \<Rightarrow> string \<Rightarrow> (error + int) \<times> disk" where
  "scrap_songs_concurrently w d artist_url output_name =
     (case get_songs_list w artist_url of
        Inl e \<Rightarrow> (Inl e, d)
      | Inr songs_urls \<Rightarrow>
          (case list_comprehension (get_song_info w) songs_urls of
             Inl e \<Rightarrow> (Inl e, d)
           | Inr songs_info \<Rightarrow>
               (case write_json d (output_name @ ''.json'') (JArray (map song_json songs_info)) 4 of
                  (Inl e, d') \<Rightarrow> (Inl e, d')
                | (Inr _, d') \<Rightarrow> (Inr (int (length songs_info)), d'))))"

text \<open>
  \<open>scrap_songs_threading\<close>, with the order in which the tasks of the pool finish as an
  argument. \<open>None\<close>: the call does not return.
\<close>

definition scrap_songs_threading ::
  "web \<Rightarrow> disk \<Rightarrow> nat list \<Rightarrow> string \<Rightarrow> string \<Rightarrow> ((error + int) \<times> disk) option" where
  "scrap_songs_threading w d completion artist_url output_name =
     (case get_songs_list w artist_url of
        Inl e \<Rightarrow> Some (Inl e, d)
      | Inr songs_urls \<Rightarrow>
          (case executor_map (get_song_info w) songs_urls completion of
             None \<Rightarrow> None
           | Some (Inl e) \<Rightarrow> Some (Inl e, d)
           | Some (Inr songs_info) \<Rightarrow>
               (case write_json d (output_name @ ''.json'') (JArray (map song_json songs_info)) 4 of
                  (Inl e, d') \<Rightarrow> Some (Inl e, d')
                | (Inr _, d') \<Rightarrow> Some (Inr (int (length songs_info)), d'))))"

section \<open>An example catalog\<close>

text \<open>
  An artist page that lists three songs, each song page with a title and a lyrics
  container of two paragraphs; the same web with the second song page unreachable; a
  disk with no files on which every path can be opened and every dump goes through.
\<close>

definition example_song :: "string \<Rightarrow> document" where
  "example_song title =
     \<lparr>list_rows = [], head_title = Some (Some title),
      cnt_letra = Some [\<lparr>p_markup = ''<p>La la</p>'', p_text = ''La la''\<rparr>,
                        \<lparr>p_markup = ''<p>HelloWorld</p>'', p_text = ''HelloWorld''\<rparr>]\<rparr>"

definition example_web :: web where
  "example_web u =
     (if u = ''a/mais_acessadas.html''
      then Some \<lparr>list_rows = [[(''data-shareurl'', ''u1'')], [(''data-shareurl'', ''u2'')],
                               [(''data-shareurl'', ''u3'')]],
                 head_title = None, cnt_letra = None\<rparr>
      else if u = ''u1'' then Some (example_song ''One'')
      else if u = ''u2'' then Some (example_song ''Two'')
      else if u = ''u3'' then Some (example_song ''Three'')
      else None)"

definition example_web_down :: web where
  "example_web_down u = (if u = ''u2'' then None else example_web u)"

definition example_disk :: disk where
  "example_disk =
     \<lparr>contents = Map.empty, openable = (\<lambda>path. True), dump_succeeds = (\<lambda>path v. True)\<rparr>"

definition example_info :: "string \<Rightarrow> string \<Rightarrow> song_info" where
  "example_info title u = \<lparr>name = title, lyrics = ''La la Hello World '', url = u\<rparr>"

section \<open>Predicates of the specification\<close>

text \<open>A string has two neighbouring spaces somewhere.\<close>

fun has_double_space :: "string \<Rightarrow> bool" where
  "has_double_space (a # b # cs) = ((a = CHR '' '' \<and> b = CHR '' '') \<or> has_double_space (b # cs))"
| "has_double_space _ = False"








section \<open>Properties of the text normalizer\<close>

lemma breaklines_loop_concat:
  "breaklines_loop lyric parrafos =
     lyric @ concat (map (\<lambda>parrafo. breaklines_text parrafo @ ''\<newline>'') parrafos)"
  by (induction parrafos arbitrary: lyric) simp_all

text \<open>
  Claim C9. On a lyrics container without paragraphs, the flattened mode returns the empty
  string, and the line-preserving mode returns too, with the empty string: \<open>s[:-2]\<close> of the
  empty string is the empty string.
\<close>

theorem empty_fragment_total:
  "get_lyrics_from_div (Some []) False = Inr [] \<and>
   get_lyrics_from_div (Some []) True = Inr [] \<and>
   slice_to_minus2 [] = []"
  by (simp add: get_lyrics_from_div_def slice_to_minus2_def)

text \<open>
  Claim C5, as the code has it. In line-preserving mode the result is the concatenation,
  over the paragraphs, of the rewritten markup followed by one more newline, without its
  last two characters whatever they are. The markup is rewritten by the five replacements
  in the order of the source. For the fragment of the two paragraphs
  \<open><p>Line one<br>cont.</p>\<close> and \<open><p>Line two</p>\<close> the concatenation ends in two
  newlines, and the result is the text up to \<open>Line two\<close>, with no newline after it.
\<close>

theorem breaklines_fixed_trim:
  "get_lyrics_from_div (Some parrafos) True =
     Inr (slice_to_minus2
            (concat (map (\<lambda>parrafo. breaklines_text parrafo @ ''\<newline>'') parrafos))) \<and>
   breaklines_text parrafo =
     replace ''</p>'' ''\<newline>'' (replace ''<p>'' '''' (replace ''</br>'' ''''
       (replace ''<br/>'' ''\<newline>'' (replace ''<br>'' ''\<newline>'' (p_markup parrafo))))) \<and>
   slice_to_minus2 (s @ [a, b]) = s \<and>
   get_lyrics_from_div
     (Some [\<lparr>p_markup = ''<p>Line one<br>cont.</p>'', p_text = ''Line onecont.''\<rparr>,
            \<lparr>p_markup = ''<p>Line two</p>'', p_text = ''Line two''\<rparr>]) True =
     Inr (slice_to_minus2 ''Line one\<newline>cont.\<newline>\<newline>Line two\<newline>\<newline>'') \<and>
   slice_to_minus2 ''Line one\<newline>cont.\<newline>\<newline>Line two\<newline>\<newline>'' =
     ''Line one\<newline>cont.\<newline>\<newline>Line two''"
proof -
  have a: "get_lyrics_from_div (Some parrafos) True =
     Inr (slice_to_minus2
            (concat (map (\<lambda>parrafo. breaklines_text parrafo @ ''\<newline>'') parrafos)))"
    by (simp add: get_lyrics_from_div_def breaklines_loop_concat)
  have b: "breaklines_text parrafo =
     replace ''</p>'' ''\<newline>'' (replace ''<p>'' '''' (replace ''</br>'' ''''
       (replace ''<br/>'' ''\<newline>'' (replace ''<br>'' ''\<newline>'' (p_markup parrafo)))))"
    by (simp add: breaklines_text_def Let_def)
  have c: "slice_to_minus2 (s @ [a, b]) = s"
    by (simp add: slice_to_minus2_def)
  have d: "get_lyrics_from_div
     (Some [\<lparr>p_markup = ''<p>Line one<br>cont.</p>'', p_text = ''Line onecont.''\<rparr>,
            \<lparr>p_markup = ''<p>Line two</p>'', p_text = ''Line two''\<rparr>]) True =
     Inr (slice_to_minus2 ''Line one\<newline>cont.\<newline>\<newline>Line two\<newline>\<newline>'')"
    by code_simp
  have e: "slice_to_minus2 ''Line one\<newline>cont.\<newline>\<newline>Line two\<newline>\<newline>'' =
     ''Line one\<newline>cont.\<newline>\<newline>Line two''"
    by code_simp
  show ?thesis using a b c d e by blast
qed

text \<open>
  Claim C5 as it is written fails on its own example: the result there is not
  \<open>"Line one
cont.

Line two
"\<close> without its last two characters.
\<close>

theorem breaklines_example_counterexample:
  "get_lyrics_from_div
     (Some [\<lparr>p_markup = ''<p>Line one<br>cont.</p>'', p_text = ''Line onecont.''\<rparr>,
            \<lparr>p_markup = ''<p>Line two</p>'', p_text = ''Line two''\<rparr>]) True
   \<noteq> Inr (slice_to_minus2 ''Line one\<newline>cont.\<newline>\<newline>Line two\<newline>'')"
  by code_simp

subsection \<open>The flattened mode\<close>

lemma dropWhile_append_cases:
  "dropWhile P (xs @ ys) = (if \<forall>x\<in>set xs. P x then dropWhile P ys else dropWhile P xs @ ys)"
  by (induction xs) auto

lemma sub_spaces_insert_space:
  "sub_spaces (x @ CHR '' '' # CHR '' '' # y) = sub_spaces (x @ CHR '' '' # y)"
proof (induction x rule: sub_spaces.induct)
  case 1
  show ?case by simp
next
  case (2 c cs)
  show ?case
  proof (cases "c = CHR '' ''")
    case True
    show ?thesis
    proof (cases "\<forall>x\<in>set cs. x = CHR '' ''")
      case all: True
      then show ?thesis using True by (simp add: dropWhile_append_cases)
    next
      case False
      then show ?thesis using True 2(1) by (auto simp: dropWhile_append_cases)
    qed
  next
    case False
    then show ?thesis using 2(2) by simp
  qed
qed

lemma sub_spaces_snoc_space:
  "\<exists>t. sub_spaces (x @ [CHR '' '']) = t @ [CHR '' '']"
proof (induction x rule: sub_spaces.induct)
  case 1
  show ?case by simp
next
  case (2 c cs)
  show ?case
  proof (cases "c = CHR '' ''")
    case True
    show ?thesis
    proof (cases "\<forall>x\<in>set cs. x = CHR '' ''")
      case all: True
      then show ?thesis using True by (simp add: dropWhile_append_cases)
    next
      case False
      then obtain t where "sub_spaces (dropWhile (\<lambda>x. x = CHR '' '') cs @ [CHR '' '']) = t @ [CHR '' '']"
        using True 2(1) by blast
      then have "sub_spaces ((c # cs) @ [CHR '' '']) = (CHR '' '' # t) @ [CHR '' '']"
        using True False by (auto simp: dropWhile_append_cases)
      then show ?thesis by blast
    qed
  next
    case False
    then obtain t where "sub_spaces (cs @ [CHR '' '']) = t @ [CHR '' '']" using 2(2) by blast
    then have "sub_spaces ((c # cs) @ [CHR '' '']) = (c # t) @ [CHR '' '']" using False by simp
    then show ?thesis by blast
  qed
qed

lemma sub_spaces_hd: "sub_spaces s = [] \<or> (\<exists>t. sub_spaces s = hd s # t \<and> s \<noteq> [])"
  by (cases s) auto

lemma no_double_space_sub_spaces: "\<not> has_double_space (sub_spaces s)"
proof (induction s rule: sub_spaces.induct)
  case 1 show ?case by simp
next
  case (2 c cs)
  show ?case
  proof (cases "c = CHR '' ''")
    case True
    let ?r = "dropWhile (\<lambda>x. x = CHR '' '') cs"
    have ih: "\<not> has_double_space (sub_spaces ?r)" using 2(1) True by simp
    have "?r = [] \<or> hd ?r \<noteq> CHR '' ''" using hd_dropWhile[of "\<lambda>x. x = CHR '' ''" cs] by auto
    then show ?thesis using ih True sub_spaces_hd[of ?r]
      by (cases "sub_spaces ?r") auto
  next
    case False
    then show ?thesis using 2(2) by (cases "sub_spaces cs") auto
  qed
qed

lemma has_double_space_snoc2: "has_double_space (s @ [CHR '' '', CHR '' ''])"
  by (induction s rule: has_double_space.induct) auto

lemma div_flat_loop_no_double_space:
  "\<not> has_double_space lyric \<Longrightarrow> \<not> has_double_space (div_flat_loop lyric parrafos)"
  by (induction parrafos arbitrary: lyric) (simp_all add: no_double_space_sub_spaces)

lemma div_flat_loop_ends_space:
  "\<exists>t. div_flat_loop (d @ [CHR '' '']) parrafos = t @ [CHR '' '']"
proof (induction parrafos arbitrary: d)
  case Nil
  show ?case by simp
next
  case (Cons p ps)
  obtain t where "sub_spaces (((d @ [CHR '' '']) @ sub_camel None (p_text p)) @ [CHR '' '']) = t @ [CHR '' '']"
    using sub_spaces_snoc_space by blast
  then show ?case using Cons.IH[of t] by simp
qed

lemma url_flat_loop_div_flat_loop:
  "url_flat_loop (d @ [CHR '' '', CHR '' '']) parrafos = div_flat_loop (d @ [CHR '' '']) parrafos @ [CHR '' '']"
proof (induction parrafos arbitrary: d)
  case Nil
  show ?case by simp
next
  case (Cons p ps)
  let ?y = "sub_camel None (p_text p) @ [CHR '' '']"
  have eq: "sub_spaces ((d @ [CHR '' '', CHR '' '']) @ ?y) = sub_spaces ((d @ [CHR '' '']) @ ?y)"
    using sub_spaces_insert_space[of d ?y] by simp
  obtain t where t: "sub_spaces ((d @ [CHR '' '']) @ ?y) = t @ [CHR '' '']"
    using sub_spaces_snoc_space[of "(d @ [CHR '' '']) @ sub_camel None (p_text p)"] by auto
  have "url_flat_loop (d @ [CHR '' '', CHR '' '']) (p # ps) = url_flat_loop (t @ [CHR '' '', CHR '' '']) ps"
    using eq t by simp
  also have "\<dots> = div_flat_loop (t @ [CHR '' '']) ps @ [CHR '' '']" by (rule Cons.IH)
  also have "div_flat_loop (t @ [CHR '' '']) ps = div_flat_loop (d @ [CHR '' '']) (p # ps)"
    using t by simp
  finally show ?case .
qed

lemma url_flat_eq_div_flat_space:
  assumes "parrafos \<noteq> []"
  shows "url_flat_loop [] parrafos = div_flat_loop [] parrafos @ [CHR '' '']"
    and "\<exists>t. div_flat_loop [] parrafos = t @ [CHR '' '']"
proof -
  obtain p ps where ps: "parrafos = p # ps" using assms by (cases parrafos) auto
  obtain t where t: "sub_spaces (sub_camel None (p_text p) @ [CHR '' '']) = t @ [CHR '' '']"
    using sub_spaces_snoc_space by blast
  show "url_flat_loop [] parrafos = div_flat_loop [] parrafos @ [CHR '' '']"
    using ps t url_flat_loop_div_flat_loop[of t ps] by simp
  show "\<exists>t. div_flat_loop [] parrafos = t @ [CHR '' '']"
    using ps t div_flat_loop_ends_space[of t ps] by simp
qed











text \<open>
  Claim C4 at a failing input. For a song page whose lyrics container holds the single
  paragraph \<open>a\<close>, \<open>get_lyrics_from_url\<close> with \<open>breaklines=False\<close> returns \<open>a\<close> followed by
  two spaces, while \<open>get_lyrics_from_div\<close> returns \<open>a\<close> followed by one space for the same
  container.
\<close>

theorem url_variant_double_space:
  "get_lyrics_from_url
     (\<lambda>u. if u = ''s''
           then Some \<lparr>list_rows = [], head_title = Some (Some ''T''),
                      cnt_letra = Some [\<lparr>p_markup = ''<p>a</p>'', p_text = ''a''\<rparr>]\<rparr>
           else None) ''s'' False = Inr ''a  '' \<and>
   has_double_space ''a  '' \<and>
   get_lyrics_from_div (Some [\<lparr>p_markup = ''<p>a</p>'', p_text = ''a''\<rparr>]) False = Inr ''a '' \<and>
   \<not> has_double_space ''a ''"
  by (simp add: get_lyrics_from_url_def get_lyrics_from_div_def requests_get_def
      not_word_boundary_def is_upper_AZ_def)

text \<open>
  The part of claim C4 that the code keeps: the flattened result of
  \<open>get_lyrics_from_div\<close> never has two neighbouring spaces.
\<close>

lemma get_lyrics_from_div_no_double_space:
  "get_lyrics_from_div (Some parrafos) False = Inr lyric \<Longrightarrow> \<not> has_double_space lyric"
  using div_flat_loop_no_double_space[of "[]" parrafos]
  by (auto simp: get_lyrics_from_div_def)

text \<open>
  Claim C10. For a fetched song page whose lyrics container has at least one paragraph,
  \<open>get_lyrics_from_url\<close> with \<open>breaklines=False\<close> returns the string of
  \<open>get_lyrics_from_div\<close> on the same paragraphs with one more space at its end; that
  string ends in a space already, so the result ends in two spaces and the two functions
  differ. \<open>get_song_info\<close> takes its lyrics from \<open>get_lyrics_from_div\<close>.
\<close>

theorem url_variant_extra_space:
  assumes "requests_get w song_url = Inr song"
    and "cnt_letra song = Some parrafos"
    and "parrafos \<noteq> []"
  shows "\<exists>lyric t.
           get_lyrics_from_div (cnt_letra song) False = Inr lyric \<and>
           get_lyrics_from_url w song_url False = Inr (lyric @ '' '') \<and>
           lyric = t @ '' '' \<and>
           get_lyrics_from_url w song_url False \<noteq> get_lyrics_from_div (cnt_letra song) False \<and>
           (\<forall>song_name. head_title song = Some (Some song_name) \<longrightarrow>
              get_song_info w (Some song_url)
                = Inr \<lparr>name = song_name, lyrics = lyric, url = song_url\<rparr>)"
proof -
  obtain t where t: "div_flat_loop [] parrafos = t @ '' ''"
    using url_flat_eq_div_flat_space(2)[OF assms(3)] by auto
  have u: "url_flat_loop [] parrafos = div_flat_loop [] parrafos @ '' ''"
    using url_flat_eq_div_flat_space(1)[OF assms(3)] by simp
  have d: "get_lyrics_from_div (cnt_letra song) False = Inr (div_flat_loop [] parrafos)"
    by (simp add: get_lyrics_from_div_def assms(2))
  have l: "get_lyrics_from_url w song_url False = Inr (div_flat_loop [] parrafos @ '' '')"
    by (simp add: get_lyrics_from_url_def assms(1) assms(2) u)
  have i: "\<forall>song_name. head_title song = Some (Some song_name) \<longrightarrow>
              get_song_info w (Some song_url)
                = Inr \<lparr>name = song_name, lyrics = div_flat_loop [] parrafos, url = song_url\<rparr>"
    by (simp add: get_song_info_def assms(1) d)
  have n: "get_lyrics_from_url w song_url False \<noteq> get_lyrics_from_div (cnt_letra song) False"
    by (simp add: d l)
  show ?thesis using t d l i n by blast
qed

theorem url_variant_extra_space_witness:
  "get_lyrics_from_div (Some [\<lparr>p_markup = ''<p>a</p>'', p_text = ''a''\<rparr>]) False = Inr ''a '' \<and>
   get_lyrics_from_url
     (\<lambda>u. if u = ''s''
           then Some \<lparr>list_rows = [], head_title = Some (Some ''T''),
                      cnt_letra = Some [\<lparr>p_markup = ''<p>a</p>'', p_text = ''a''\<rparr>]\<rparr>
           else None) ''s'' False = Inr (''a '' @ '' '')"
proof -
  let ?ps = "[\<lparr>p_markup = ''<p>a</p>'', p_text = ''a''\<rparr>]"
  let ?song = "\<lparr>list_rows = [], head_title = Some (Some ''T''), cnt_letra = Some ?ps\<rparr>"
  let ?w = "\<lambda>u. if u = ''s'' then Some ?song else None"
  have h1: "requests_get ?w ''s'' = Inr ?song" by (simp add: requests_get_def)
  have h2: "cnt_letra ?song = Some ?ps" by simp
  have h3: "?ps \<noteq> []" by simp
  have v: "get_lyrics_from_div (Some ?ps) False = Inr ''a ''"
    by (simp add: get_lyrics_from_div_def not_word_boundary_def is_upper_AZ_def)
  obtain lyric where "get_lyrics_from_div (cnt_letra ?song) False = Inr lyric"
    and "get_lyrics_from_url ?w ''s'' False = Inr (lyric @ '' '')"
    using url_variant_extra_space [OF h1 h2 h3] by blast
  then show ?thesis using v by simp
qed

section \<open>Properties of the song extractor and the catalog lister\<close>

text \<open>
  Claim C6. When the page of a song is fetched and its heading container, the \<open>h1\<close> in
  it, or its lyrics container is absent, \<open>get_song_info\<close> fails with a LookupError: the
  caller gets the error and no record.
\<close>

theorem missing_element_LookupError:
  assumes "requests_get w u = Inr song"
    and "head_title song = None \<or> head_title song = Some None \<or> cnt_letra song = None"
  shows "get_song_info w (Some u) = Inl LookupError"
  using assms
  by (auto simp: get_song_info_def get_lyrics_from_div_def split: option.splits sum.splits)

theorem missing_element_LookupError_witness:
  "requests_get
     (\<lambda>u. if u = ''s''
           then Some \<lparr>list_rows = [], head_title = Some (Some ''T''), cnt_letra = None\<rparr>
           else None) ''s''
     = Inr \<lparr>list_rows = [], head_title = Some (Some ''T''), cnt_letra = None\<rparr> \<and>
   get_song_info
     (\<lambda>u. if u = ''s''
           then Some \<lparr>list_rows = [], head_title = Some (Some ''T''), cnt_letra = None\<rparr>
           else None) (Some ''s'')
     = Inl LookupError"
proof -
  let ?w = "\<lambda>u. if u = ''s''
                 then Some \<lparr>list_rows = [], head_title = Some (Some ''T''), cnt_letra = None\<rparr>
                 else None"
  have h: "requests_get ?w ''s''
             = Inr \<lparr>list_rows = [], head_title = Some (Some ''T''), cnt_letra = None\<rparr>"
    by (simp add: requests_get_def)
  show ?thesis using h missing_element_LookupError [OF h] by simp
qed

text \<open>
  Claim C8. When the listing page is fetched, \<open>get_songs_list\<close> returns, and its list has
  one entry per catalog row, in the order of the rows: the entry of a row is the value of
  its \<open>data-shareurl\<close> attribute, and it is \<open>None\<close> exactly when the row has no such
  attribute.
\<close>

theorem songs_list_placeholder:
  assumes "requests_get w (artist_url @ ''mais_acessadas.html'') = Inr soup"
  shows "\<exists>songs_urls. get_songs_list w artist_url = Inr songs_urls \<and>
           length songs_urls = length (list_rows soup) \<and>
           (\<forall>i < length (list_rows soup).
              songs_urls ! i = map_of (list_rows soup ! i) ''data-shareurl'' \<and>
              (songs_urls ! i = None \<longleftrightarrow> ''data-shareurl'' \<notin> fst ` set (list_rows soup ! i)))"
  using assms by (simp add: get_songs_list_def tag_get_def map_of_eq_None_iff)

theorem songs_list_placeholder_witness:
  "get_songs_list
     (\<lambda>u. if u = ''a/mais_acessadas.html''
           then Some \<lparr>list_rows = [[(''data-shareurl'', ''u1'')], [(''class'', ''x'')],
                                    [(''data-shareurl'', ''u3'')]],
                      head_title = None, cnt_letra = None\<rparr>
           else None) ''a/''
     = Inr [Some ''u1'', None, Some ''u3'']"
proof -
  let ?soup = "\<lparr>list_rows = [[(''data-shareurl'', ''u1'')], [(''class'', ''x'')],
                              [(''data-shareurl'', ''u3'')]],
                head_title = None, cnt_letra = None\<rparr>"
  let ?w = "\<lambda>u. if u = ''a/mais_acessadas.html'' then Some ?soup else None"
  have h: "requests_get ?w (''a/'' @ ''mais_acessadas.html'') = Inr ?soup"
    by (simp add: requests_get_def)
  obtain songs_urls where r: "get_songs_list ?w ''a/'' = Inr songs_urls"
    and l: "length songs_urls = length (list_rows ?soup)"
    and v: "\<forall>i < length (list_rows ?soup).
              songs_urls ! i = map_of (list_rows ?soup ! i) ''data-shareurl''"
    using songs_list_placeholder [OF h] by blast
  have "length songs_urls = 3" using l by simp
  moreover have "songs_urls ! 0 = Some ''u1''" using v by simp
  moreover have "songs_urls ! 1 = None" using v by simp
  moreover have "songs_urls ! 2 = Some ''u3''" using v by simp
  ultimately have "songs_urls = [Some ''u1'', None, Some ''u3'']"
    by (simp add: list_eq_iff_nth_eq less_Suc_eq numeral_3_eq_3 numeral_2_eq_2)
  then show ?thesis using r by simp
qed

section \<open>Properties of the aggregator and the exporter\<close>

lemma list_comprehension_Inr:
  "list_comprehension fn xs = Inr ys \<Longrightarrow> list_all2 (\<lambda>x y. fn x = Inr y) xs ys"
  by (induction xs arbitrary: ys) (auto split: sum.splits)

lemma list_comprehension_succeeds:
  "\<forall>x\<in>set xs. \<exists>y. fn x = Inr y \<Longrightarrow> \<exists>ys. list_comprehension fn xs = Inr ys"
  by (induction xs) (auto split: sum.splits)

lemma run_tasks_fold:
  "fold (\<lambda>i futures. if i < length xs then futures(i \<mapsto> fn (xs ! i)) else futures) completion m j
     = (if j \<in> set completion \<and> j < length xs then Some (fn (xs ! j)) else m j)"
  by (induction completion arbitrary: m) auto

lemma run_tasks_apply:
  "run_tasks fn xs completion j
     = (if j \<in> set completion \<and> j < length xs then Some (fn (xs ! j)) else None)"
  by (simp add: run_tasks_def run_tasks_fold)

lemma read_results_list_comprehension:
  "\<forall>i\<in>set js. futures i = Some (fn (xs ! i)) \<Longrightarrow>
     read_results futures js = Some (list_comprehension fn (map (\<lambda>i. xs ! i) js))"
  by (induction js) (auto split: sum.splits)

lemma executor_map_list_comprehension:
  assumes "{0..<length xs} \<subseteq> set completion"
  shows "executor_map fn xs completion = Some (list_comprehension fn xs)"
proof -
  have a: "\<forall>i\<in>set [0..<length xs]. run_tasks fn xs completion i = Some (fn (xs ! i))"
    using assms by (auto simp: run_tasks_apply)
  have "read_results (run_tasks fn xs completion) [0..<length xs]
          = Some (list_comprehension fn (map (\<lambda>i. xs ! i) [0..<length xs]))"
    using a by (rule read_results_list_comprehension)
  then show ?thesis by (simp add: executor_map_def map_nth)
qed

lemma list_comprehension_first_failure:
  assumes "k < length xs"
    and "\<forall>i<k. \<exists>y. fn (xs ! i) = Inr y"
    and "fn (xs ! k) = Inl e"
  shows "list_comprehension fn xs = Inl e"
  using assms
proof (induction xs arbitrary: k)
  case Nil
  then show ?case by simp
next
  case (Cons x xs)
  show ?case
  proof (cases k)
    case 0
    then show ?thesis using Cons.prems by simp
  next
    case (Suc j)
    have j: "j < length xs" using Cons.prems(1) Suc by simp
    have before: "\<forall>i<j. \<exists>y. fn (xs ! i) = Inr y"
    proof (intro allI impI)
      fix i assume "i < j"
      then have "Suc i < k" using Suc by simp
      then show "\<exists>y. fn (xs ! i) = Inr y" using Cons.prems(2) by fastforce
    qed
    have at: "fn (xs ! j) = Inl e" using Cons.prems(3) Suc by simp
    have rest: "list_comprehension fn xs = Inl e"
      using Cons.IH[OF j before at] .
    obtain y where "fn x = Inr y" using Cons.prems(2) Suc by fastforce
    then show ?thesis using rest by simp
  qed
qed

lemma read_results_first_failure:
  assumes "\<forall>i\<in>set js1. \<exists>y. futures i = Some (Inr y)"
    and "futures j = Some (Inl e)"
  shows "read_results futures (js1 @ j # js2) = Some (Inl e)"
  using assms by (induction js1) auto

lemma executor_map_first_failure:
  assumes "k < length xs"
    and "\<forall>i<k. \<exists>y. fn (xs ! i) = Inr y"
    and "fn (xs ! k) = Inl e"
    and "{0..k} \<subseteq> set completion"
  shows "executor_map fn xs completion = Some (Inl e)"
proof -
  have "[0..<length xs] = [0..<k] @ [k..<length xs]"
    using upt_add_eq_append[of 0 k "length xs - k"] assms(1) by simp
  moreover have "[k..<length xs] = k # [Suc k..<length xs]"
    using assms(1) by (rule upt_conv_Cons)
  ultimately have split: "[0..<length xs] = [0..<k] @ k # [Suc k..<length xs]"
    by simp
  have before: "\<forall>i\<in>set [0..<k]. \<exists>y. run_tasks fn xs completion i = Some (Inr y)"
    using assms(1,2,4) by (auto simp: run_tasks_apply)
  have at: "run_tasks fn xs completion k = Some (Inl e)"
    using assms(1,3,4) by (auto simp: run_tasks_apply)
  show ?thesis
    unfolding executor_map_def split
    using before at by (rule read_results_first_failure)
qed

lemma scrap_songs_threading_concurrently:
  assumes "get_songs_list w artist_url = Inr songs_urls"
    and "{0..<length songs_urls} \<subseteq> set completion"
  shows "scrap_songs_threading w d completion artist_url output_name
           = Some (scrap_songs_concurrently w d artist_url output_name)"
  using assms
  by (simp add: scrap_songs_threading_def scrap_songs_concurrently_def
      executor_map_list_comprehension split: sum.splits prod.splits)

lemma example_songs_list:
  "get_songs_list example_web ''a/'' = Inr [Some ''u1'', Some ''u2'', Some ''u3'']"
  by (simp add: get_songs_list_def requests_get_def example_web_def tag_get_def)

lemma example_songs_list_down:
  "get_songs_list example_web_down ''a/'' = Inr [Some ''u1'', Some ''u2'', Some ''u3'']"
  by (simp add: get_songs_list_def requests_get_def example_web_def example_web_down_def
      tag_get_def)

lemma example_song_infos:
  "get_song_info example_web (Some ''u1'') = Inr (example_info ''One'' ''u1'')"
  "get_song_info example_web (Some ''u2'') = Inr (example_info ''Two'' ''u2'')"
  "get_song_info example_web (Some ''u3'') = Inr (example_info ''Three'' ''u3'')"
  by code_simp+

lemma example_song_infos_down:
  "get_song_info example_web_down (Some ''u1'') = Inr (example_info ''One'' ''u1'')"
  "get_song_info example_web_down (Some ''u2'') = Inl FetchError"
  by code_simp+

lemma example_completion: "set [2, 0, 1] = {0..<length [a, b, c]}"
  by auto

text \<open>
  Claim C1. For a listing that is fetched and is not empty, when every song of it is
  fetched and extracted, the list comprehension and the executor's \<open>map\<close> give the same
  list of records, in the same order, whatever the order in which the tasks of the pool
  finish; \<open>scrap_songs_threading\<close> then returns what \<open>scrap_songs_concurrently\<close> returns
  and leaves the same files.
\<close>

theorem sequential_threading_same:
  assumes "get_songs_list w artist_url = Inr songs_urls"
    and "songs_urls \<noteq> []"
    and "\<forall>u\<in>set songs_urls. \<exists>r. get_song_info w u = Inr r"
    and "set completion = {0..<length songs_urls}"
  shows "\<exists>songs_info.
           list_comprehension (get_song_info w) songs_urls = Inr songs_info \<and>
           executor_map (get_song_info w) songs_urls completion = Some (Inr songs_info) \<and>
           scrap_songs_threading w d completion artist_url output_name
             = Some (scrap_songs_concurrently w d artist_url output_name)"
proof -
  obtain songs_info where s: "list_comprehension (get_song_info w) songs_urls = Inr songs_info"
    using list_comprehension_succeeds[OF assms(3)] by blast
  have c: "{0..<length songs_urls} \<subseteq> set completion" using assms(4) by simp
  have "executor_map (get_song_info w) songs_urls completion = Some (Inr songs_info)"
    by (simp add: executor_map_list_comprehension[OF c] s)
  moreover have "scrap_songs_threading w d completion artist_url output_name
             = Some (scrap_songs_concurrently w d artist_url output_name)"
    using scrap_songs_threading_concurrently[OF assms(1) c] .
  ultimately show ?thesis using s by blast
qed

theorem sequential_threading_same_witness:
  "scrap_songs_threading example_web example_disk [2, 0, 1] ''a/'' ''out''
     = Some (scrap_songs_concurrently example_web example_disk ''a/'' ''out'') \<and>
   executor_map (get_song_info example_web) [Some ''u1'', Some ''u2'', Some ''u3''] [2, 0, 1]
     = Some (Inr [example_info ''One'' ''u1'', example_info ''Two'' ''u2'',
                  example_info ''Three'' ''u3''])"
proof -
  let ?urls = "[Some ''u1'', Some ''u2'', Some ''u3'']"
  have h2: "?urls \<noteq> []" by simp
  have h3: "\<forall>u\<in>set ?urls. \<exists>r. get_song_info example_web u = Inr r"
    by (simp add: example_song_infos)
  have l: "list_comprehension (get_song_info example_web) ?urls
             = Inr [example_info ''One'' ''u1'', example_info ''Two'' ''u2'',
                    example_info ''Three'' ''u3'']"
    by (simp add: example_song_infos)
  show ?thesis
    using sequential_threading_same [OF example_songs_list h2 h3 example_completion,
        of example_disk "''out''"] l
    by auto
qed

text \<open>
  Claim C2. When every song of the listing is fetched and extracted, the aggregated list
  has the length of the list of URLs and its record at position \<open>i\<close> is the one extracted
  from the URL at position \<open>i\<close>, in \<open>get_artist_songs\<close> and in the executor's \<open>map\<close>,
  whatever the order in which the tasks finish.
\<close>

theorem aggregate_length_order:
  assumes "get_songs_list w artist_url = Inr urls"
    and "\<forall>u\<in>set urls. \<exists>r. get_song_info w u = Inr r"
    and "set completion = {0..<length urls}"
  shows "\<exists>data.
           get_artist_songs w artist_url = Inr data \<and>
           executor_map (get_song_info w) urls completion = Some (Inr data) \<and>
           length data = length urls \<and>
           (\<forall>i < length urls. get_song_info w (urls ! i) = Inr (data ! i))"
proof -
  obtain data where s: "list_comprehension (get_song_info w) urls = Inr data"
    using list_comprehension_succeeds[OF assms(2)] by blast
  have c: "{0..<length urls} \<subseteq> set completion" using assms(3) by simp
  have e: "executor_map (get_song_info w) urls completion = Some (Inr data)"
    by (simp add: executor_map_list_comprehension[OF c] s)
  have g: "get_artist_songs w artist_url = Inr data"
    by (simp add: get_artist_songs_def assms(1) s)
  have "list_all2 (\<lambda>x y. get_song_info w x = Inr y) urls data"
    using s by (rule list_comprehension_Inr)
  then have "length data = length urls \<and>
           (\<forall>i < length urls. get_song_info w (urls ! i) = Inr (data ! i))"
    by (auto simp: list_all2_conv_all_nth)
  then show ?thesis using g e by blast
qed

theorem aggregate_length_order_witness:
  "get_artist_songs example_web ''a/''
     = Inr [example_info ''One'' ''u1'', example_info ''Two'' ''u2'', example_info ''Three'' ''u3''] \<and>
   executor_map (get_song_info example_web) [Some ''u1'', Some ''u2'', Some ''u3''] [1, 2, 0]
     = Some (Inr [example_info ''One'' ''u1'', example_info ''Two'' ''u2'',
                  example_info ''Three'' ''u3''])"
proof -
  let ?urls = "[Some ''u1'', Some ''u2'', Some ''u3'']"
  have h2: "\<forall>u\<in>set ?urls. \<exists>r. get_song_info example_web u = Inr r"
    by (simp add: example_song_infos)
  have h3: "set [1, 2, 0] = {0..<length ?urls}" by auto
  have l: "get_artist_songs example_web ''a/''
             = Inr [example_info ''One'' ''u1'', example_info ''Two'' ''u2'',
                    example_info ''Three'' ''u3'']"
    by (simp add: get_artist_songs_def example_songs_list example_song_infos)
  show ?thesis
    using aggregate_length_order [OF example_songs_list h2 h3] l
    by auto
qed

text \<open>
  Claim C3. The export is all or nothing, in both modes. When every step succeeds (the
  listing is fetched, every song is extracted, the output file is opened and the dump is
  written), the file \<open>output_name.json\<close> holds the dump, with indent 4, of the array of
  the records, each an object with the keys \<open>name\<close>, \<open>lyrics\<close>, \<open>url\<close> in this order,
  whatever the file held before, and the count returned is the number of listed URLs.
  When the listing fails, or the song at some position is the first to fail, the error is
  returned and the files are as they were. In the run with the pool, the tasks that have
  finished are all of them when every song is extracted, and at least those up to the
  first failing one otherwise: the ones after it may have been cancelled.
\<close>

theorem export_all_or_nothing:
  "(get_songs_list w artist_url = Inr songs_urls \<and>
    list_comprehension (get_song_info w) songs_urls = Inr songs_info \<and>
    {0..<length songs_urls} \<subseteq> set completion \<and>
    openable d (output_name @ ''.json'') \<and>
    dump_succeeds d (output_name @ ''.json'') (JArray (map song_json songs_info)) \<longrightarrow>
      length songs_info = length songs_urls \<and>
      scrap_songs_concurrently w d artist_url output_name
        = (Inr (int (length songs_urls)),
           d\<lparr>contents := (contents d)(output_name @ ''.json'' \<mapsto>
                Dump (JArray (map song_json songs_info)) 4)\<rparr>) \<and>
      scrap_songs_threading w d completion artist_url output_name
        = Some (Inr (int (length songs_urls)),
           d\<lparr>contents := (contents d)(output_name @ ''.json'' \<mapsto>
                Dump (JArray (map song_json songs_info)) 4)\<rparr>)) \<and>
   (get_songs_list w artist_url = Inl e \<longrightarrow>
      scrap_songs_concurrently w d artist_url output_name = (Inl e, d) \<and>
      scrap_songs_threading w d completion artist_url output_name = Some (Inl e, d)) \<and>
   (get_songs_list w artist_url = Inr songs_urls \<and>
    k < length songs_urls \<and>
    (\<forall>i<k. \<exists>r. get_song_info w (songs_urls ! i) = Inr r) \<and>
    get_song_info w (songs_urls ! k) = Inl e \<and>
    {0..k} \<subseteq> set completion \<longrightarrow>
      scrap_songs_concurrently w d artist_url output_name = (Inl e, d) \<and>
      scrap_songs_threading w d completion artist_url output_name = Some (Inl e, d)) \<and>
   song_json s = JObject [(''name'', JString (name s)), (''lyrics'', JString (lyrics s)),
                          (''url'', JString (url s))]"
proof -
  have len: "length songs_info = length songs_urls"
    if "list_comprehension (get_song_info w) songs_urls = Inr songs_info"
    using list_comprehension_Inr[OF that] by (auto dest: list_all2_lengthD)
  have ok: "scrap_songs_concurrently w d artist_url output_name
              = (Inr (int (length songs_urls)),
                 d\<lparr>contents := (contents d)(output_name @ ''.json'' \<mapsto>
                      Dump (JArray (map song_json songs_info)) 4)\<rparr>)"
    if "get_songs_list w artist_url = Inr songs_urls"
      "list_comprehension (get_song_info w) songs_urls = Inr songs_info"
      "openable d (output_name @ ''.json'')"
      "dump_succeeds d (output_name @ ''.json'') (JArray (map song_json songs_info))"
    using that len
    by (simp add: scrap_songs_concurrently_def write_json_def open_w_def json_dump_def)
  have okt: "scrap_songs_threading w d completion artist_url output_name
           = Some (scrap_songs_concurrently w d artist_url output_name)"
    if "get_songs_list w artist_url = Inr songs_urls"
      "{0..<length songs_urls} \<subseteq> set completion"
    using scrap_songs_threading_concurrently[OF that] .
  have bad1: "scrap_songs_concurrently w d artist_url output_name = (Inl e, d)"
    if "get_songs_list w artist_url = Inl e"
    using that by (simp add: scrap_songs_concurrently_def)
  have bad1t: "scrap_songs_threading w d completion artist_url output_name = Some (Inl e, d)"
    if "get_songs_list w artist_url = Inl e"
    using that by (simp add: scrap_songs_threading_def)
  have bad2: "scrap_songs_concurrently w d artist_url output_name = (Inl e, d)"
    if "get_songs_list w artist_url = Inr songs_urls" "k < length songs_urls"
      "\<forall>i<k. \<exists>r. get_song_info w (songs_urls ! i) = Inr r"
      "get_song_info w (songs_urls ! k) = Inl e"
    using that(1) list_comprehension_first_failure[OF that(2,3,4)]
    by (simp add: scrap_songs_concurrently_def)
  have bad2t: "scrap_songs_threading w d completion artist_url output_name = Some (Inl e, d)"
    if "get_songs_list w artist_url = Inr songs_urls" "k < length songs_urls"
      "\<forall>i<k. \<exists>r. get_song_info w (songs_urls ! i) = Inr r"
      "get_song_info w (songs_urls ! k) = Inl e"
      "{0..k} \<subseteq> set completion"
    using that(1) executor_map_first_failure[OF that(2,3,4,5)]
    by (simp add: scrap_songs_threading_def)
  have j: "song_json s = JObject [(''name'', JString (name s)), (''lyrics'', JString (lyrics s)),
                          (''url'', JString (url s))]"
    by (simp add: song_json_def)
  show ?thesis
    using ok okt bad1 bad1t bad2 bad2t len j by (intro conjI impI) auto
qed

theorem export_all_or_nothing_witness:
  "scrap_songs_concurrently example_web example_disk ''a/'' ''out''
     = (Inr 3, example_disk\<lparr>contents := (contents example_disk)(''out.json'' \<mapsto>
          Dump (JArray (map song_json [example_info ''One'' ''u1'', example_info ''Two'' ''u2'',
                                       example_info ''Three'' ''u3''])) 4)\<rparr>) \<and>
   scrap_songs_threading example_web example_disk [2, 0, 1] ''a/'' ''out''
     = Some (Inr 3, example_disk\<lparr>contents := (contents example_disk)(''out.json'' \<mapsto>
          Dump (JArray (map song_json [example_info ''One'' ''u1'', example_info ''Two'' ''u2'',
                                       example_info ''Three'' ''u3''])) 4)\<rparr>) \<and>
   scrap_songs_concurrently example_web example_disk ''b/'' ''out''
     = (Inl FetchError, example_disk) \<and>
   scrap_songs_threading example_web example_disk [] ''b/'' ''out''
     = Some (Inl FetchError, example_disk) \<and>
   scrap_songs_concurrently example_web_down example_disk ''a/'' ''out''
     = (Inl FetchError, example_disk) \<and>
   scrap_songs_threading example_web_down example_disk [1, 0] ''a/'' ''out''
     = Some (Inl FetchError, example_disk)"
proof -
  let ?urls = "[Some ''u1'', Some ''u2'', Some ''u3'']"
  let ?infos = "[example_info ''One'' ''u1'', example_info ''Two'' ''u2'',
                 example_info ''Three'' ''u3'']"
  have l: "list_comprehension (get_song_info example_web) ?urls = Inr ?infos"
    by (simp add: example_song_infos)
  have c: "{0..<length ?urls} \<subseteq> set [2, 0, 1]" by auto
  have o: "openable example_disk (''out'' @ ''.json'')"
    by (simp add: example_disk_def)
  have u: "dump_succeeds example_disk (''out'' @ ''.json'') (JArray (map song_json ?infos))"
    by (simp add: example_disk_def)
  have good:
    "scrap_songs_concurrently example_web example_disk ''a/'' ''out''
       = (Inr 3, example_disk\<lparr>contents := (contents example_disk)(''out.json'' \<mapsto>
            Dump (JArray (map song_json ?infos)) 4)\<rparr>) \<and>
     scrap_songs_threading example_web example_disk [2, 0, 1] ''a/'' ''out''
       = Some (Inr 3, example_disk\<lparr>contents := (contents example_disk)(''out.json'' \<mapsto>
            Dump (JArray (map song_json ?infos)) 4)\<rparr>)"
    using export_all_or_nothing [where w = example_web and artist_url = "''a/''"
        and songs_urls = ?urls and songs_info = ?infos and completion = "[2, 0, 1]"
        and d = example_disk and output_name = "''out''"]
      example_songs_list l c o u
    by simp
  have nl: "get_songs_list example_web ''b/'' = Inl FetchError"
    by (simp add: get_songs_list_def requests_get_def example_web_def)
  have bad_listing:
    "scrap_songs_concurrently example_web example_disk ''b/'' ''out''
       = (Inl FetchError, example_disk) \<and>
     scrap_songs_threading example_web example_disk [] ''b/'' ''out''
       = Some (Inl FetchError, example_disk)"
    using export_all_or_nothing [where w = example_web and artist_url = "''b/''"
        and e = FetchError and completion = "[]" and d = example_disk
        and output_name = "''out''"] nl
    by simp
  have k: "(1::nat) < length ?urls" by simp
  have before: "\<forall>i<(1::nat). \<exists>r. get_song_info example_web_down (?urls ! i) = Inr r"
    by (simp add: example_song_infos_down)
  have at: "get_song_info example_web_down (?urls ! 1) = Inl FetchError"
    by (simp add: example_song_infos_down)
  have fin: "{0..(1::nat)} \<subseteq> set [1, 0]" by auto
  have bad_song:
    "scrap_songs_concurrently example_web_down example_disk ''a/'' ''out''
       = (Inl FetchError, example_disk) \<and>
     scrap_songs_threading example_web_down example_disk [1, 0] ''a/'' ''out''
       = Some (Inl FetchError, example_disk)"
    using export_all_or_nothing [where w = example_web_down and artist_url = "''a/''"
        and songs_urls = ?urls and k = 1 and e = FetchError and completion = "[1, 0]"
        and d = example_disk and output_name = "''out''"]
      example_songs_list_down k before at fin
    by simp
  show ?thesis using good bad_listing bad_song by simp
qed

text \<open>
  Outside the two cases of claim C3, when the records are there and the write fails: if
  the file cannot be opened the files are as they were; if the dump raises after the
  file was opened, the file is left truncated or with part of the dump.
\<close>

lemma write_failure_leaves_partial_file:
  assumes "get_songs_list w artist_url = Inr songs_urls"
    and "list_comprehension (get_song_info w) songs_urls = Inr songs_info"
  shows "\<not> openable d (output_name @ ''.json'') \<Longrightarrow>
           scrap_songs_concurrently w d artist_url output_name = (Inl SerializationError, d)"
    and "openable d (output_name @ ''.json'') \<Longrightarrow>
         \<not> dump_succeeds d (output_name @ ''.json'') (JArray (map song_json songs_info)) \<Longrightarrow>
           scrap_songs_concurrently w d artist_url output_name
             = (Inl SerializationError,
                d\<lparr>contents := (contents d)(output_name @ ''.json'' \<mapsto>
                     Partial_dump (JArray (map song_json songs_info)) 4)\<rparr>)"
  using assms
  by (simp_all add: scrap_songs_concurrently_def write_json_def open_w_def json_dump_def)

end
